theory Spec2Isabelle
  imports Complex_Main "HOL-Library.Multiset" "HOL-Library.Sublist"
    "HOL-Library.Char_ord" "HOL-Library.List_Lexorder" "HOL-Library.Log_Nat"
begin

section \<open>Tables\<close>

text \<open>
  The script works on pandas data frames read from three CSV files. A frame is modelled
  by its header (the column names, in order) and its rows (in order), each row holding
  one cell per column. A cell is a missing value (\<open>NaN\<close>, or \<open>NaT\<close> in a datetime
  column), a number, a text, or a calendar date. A number is a rational: every
  \<open>int64\<close> and every finite \<open>float64\<close> is one. Arithmetic is exact, except where the
  result of the script depends on the rounding of double precision: the percentages of
  the audit and the conversion of \<open>int64\<close> join keys to \<open>float64\<close> are rounded by \<open>fl\<close>
  below. Row labels (the index) are not modelled: no function of the script reads them.
\<close>

datatype cell = NaN | NaT | Num rat | Str string | Timestamp int int int

record dataframe =
  columns :: "string list"
  rows :: "cell list list"

datatype py_error = KeyError string | TypeError | AttributeError | ValueError

text \<open>
  The type pandas gives a column when it reads the file: \<open>int64\<close> when every field is a
  whole number, \<open>float64\<close> when every field is a number or is missing, \<open>object\<close> when
  some field is a text. The cells alone do not tell \<open>int64\<close> from \<open>float64\<close>, so the
  functions whose result depends on the type of the identifier column (the comparison
  of identifier sets, the join) take it as an argument.
\<close>

datatype dtype = Int64 | Float64 | Object

text \<open>\<open>isna\<close>: the cells pandas counts as null.\<close>

fun isna :: "cell \<Rightarrow> bool" where
  "isna NaN = True"
| "isna NaT = True"
| "isna _ = False"

text \<open>A frame is well formed when every row has one cell per column.\<close>

definition wf_frame :: "dataframe \<Rightarrow> bool" where
  "wf_frame df = list_all (\<lambda>r. length r = length (columns df)) (rows df)"

text \<open>The cell of a row under a column name (the first column of that name).\<close>

fun cell_at :: "string list \<Rightarrow> cell list \<Rightarrow> string \<Rightarrow> cell" where
  "cell_at (k # ks) (x # xs) c = (if k = c then x else cell_at ks xs c)"
| "cell_at _ _ c = NaN"

text \<open>\<open>df[c]\<close>: the column as a list of cells; a missing column raises \<open>KeyError\<close>.\<close>

definition series :: "dataframe \<Rightarrow> string \<Rightarrow> cell list" where
  "series df c = map (\<lambda>r. cell_at (columns df) r c) (rows df)"

definition getitem :: "dataframe \<Rightarrow> string \<Rightarrow> py_error + cell list" where
  "getitem df c = (if c \<in> set (columns df) then Inr (series df c) else Inl (KeyError c))"

text \<open>
  \<open>df[c] = values\<close>: an existing column is overwritten in place, a new one is appended
  as the last column.
\<close>

definition put_col :: "string list \<Rightarrow> string \<Rightarrow> string list" where
  "put_col ks c = (if c \<in> set ks then ks else ks @ [c])"

fun put_cell :: "string list \<Rightarrow> cell list \<Rightarrow> string \<Rightarrow> cell \<Rightarrow> cell list" where
  "put_cell (k # ks) (x # xs) c v = (if k = c then v # xs else x # put_cell ks xs c v)"
| "put_cell [] xs c v = xs @ [v]"
| "put_cell (k # ks) [] c v = [v]"

definition setitem :: "dataframe \<Rightarrow> string \<Rightarrow> cell list \<Rightarrow> dataframe" where
  "setitem df c vs =
     \<lparr>columns = put_col (columns df) c,
      rows = map (\<lambda>(r, v). put_cell (columns df) r c v) (zip (rows df) vs)\<rparr>"

section \<open>Double precision\<close>




section \<open>Auditing: \<open>audit_data\<close>\<close>







section \<open>Cleaning: \<open>clean_data\<close>\<close>

subsection \<open>Duplicate rows\<close>

text \<open>
  \<open>df.duplicated()\<close> marks a row when an equal row stands before it (\<open>keep='first'\<close>; two
  missing values count as equal), and \<open>df.drop_duplicates()\<close> keeps the unmarked rows.
\<close>

fun duplicated_from :: "cell list list \<Rightarrow> cell list list \<Rightarrow> bool list" where
  "duplicated_from seen [] = []"
| "duplicated_from seen (r # rs) = (r \<in> set seen) # duplicated_from (r # seen) rs"

definition duplicated :: "dataframe \<Rightarrow> bool list" where
  "duplicated df = duplicated_from [] (rows df)"

definition drop_duplicates :: "dataframe \<Rightarrow> dataframe" where
  "drop_duplicates df =
     df\<lparr>rows := map fst (filter (\<lambda>(r, d). \<not> d) (zip (rows df) (duplicated df)))\<rparr>"

text \<open>The rows that duplicate removal keeps, as a recursion of its own.\<close>

fun keep_first :: "cell list list \<Rightarrow> cell list list \<Rightarrow> cell list list" where
  "keep_first seen [] = []"
| "keep_first seen (r # rs) =
     (if r \<in> set seen then keep_first (r # seen) rs else r # keep_first (r # seen) rs)"

subsection \<open>Default values\<close>

text \<open>
  \<open>df.fillna(value=d)\<close> with a dictionary replaces the null cells of the columns the
  dictionary names; \<open>df.fillna(v)\<close> with a scalar replaces every null cell.
\<close>

definition fill_cell :: "(string \<times> cell) list \<Rightarrow> string \<Rightarrow> cell \<Rightarrow> cell" where
  "fill_cell d c v = (case map_of d c of Some dflt \<Rightarrow> if isna v then dflt else v | None \<Rightarrow> v)"

definition fillna_dict :: "(string \<times> cell) list \<Rightarrow> dataframe \<Rightarrow> dataframe" where
  "fillna_dict d df =
     df\<lparr>rows := map (\<lambda>r. map (\<lambda>(c, v). fill_cell d c v) (zip (columns df) r)) (rows df)\<rparr>"

definition fillna_scalar :: "cell \<Rightarrow> dataframe \<Rightarrow> dataframe" where
  "fillna_scalar dflt df = df\<lparr>rows := map (map (\<lambda>v. if isna v then dflt else v)) (rows df)\<rparr>"

definition acct_default_vals :: "(string \<times> cell) list" where
  "acct_default_vals =
     [(''AccountLength'', Num (- 1)),
      (''AverageBalance'', Num (- 1)),
      (''NumTransactions'', Num (- 1)),
      (''NumDeposits'', Num (- 1)),
      (''NumWithdrawals'', Num (- 1)),
      (''NumTransfers'', Num (- 1)),
      (''NumLoans'', Num (- 1)),
      (''NumCreditCards'', Num (- 1)),
      (''NumSavingsAccounts'', Num (- 1))]"

definition holder_default_vals :: "(string \<times> cell) list" where
  "holder_default_vals =
     [(''DateOfBirth'', Str ''Missing''),
      (''Gender'', Str ''Missing''),
      (''Income'', Num (- 1)),
      (''CreditScore'', Num (- 1)),
      (''LoanAmount'', Num (- 1)),
      (''EmploymentStatus'', Str ''Missing''),
      (''MaritalStatus'', Str ''Missing''),
      (''OccupancyStatus'', Str ''Missing''),
      (''NumDependents'', Num (- 1)),
      (''SocialMediaUsageHours'', Num (- 1)),
      (''ShoppingFrequencyPerMonth'', Num (- 1)),
      (''HealthInsuranceStatus'', Str ''Missing'')]"

definition clean_data ::
  "dataframe \<Rightarrow> dataframe \<Rightarrow> dataframe \<Rightarrow> dataframe \<times> dataframe \<times> dataframe" where
  "clean_data acct_info holder_info fraud_indicators =
     (fillna_dict acct_default_vals acct_info,
      fillna_dict holder_default_vals (drop_duplicates holder_info),
      fillna_scalar (Num 0) fraud_indicators)"

section \<open>Merging: \<open>merge_datasets\<close>\<close>














text \<open>The identifiers of a table: its \<open>Identifier\<close> column.\<close>

definition identifiers :: "dataframe \<Rightarrow> cell list" where
  "identifiers df = series df ''Identifier''"


section \<open>Identifier checks of \<open>main\<close>\<close>

text \<open>
  \<open>set(col)\<close> holds the cells of the column as Python objects, and two sets are equal
  when they have the same size and every element of one is found in the other, by
  identity or by \<open>==\<close>. Numbers and texts are found by value (\<open>1 == 1.0\<close>). A missing
  value is a \<open>nan\<close>, which is not \<open>==\<close> to itself. Iterating a numeric column makes a new
  Python float for every cell, so a missing value of a numeric column is found in no
  other set: a set that holds one is equal to no set built from another column. In an
  \<open>object\<close> column \<open>read_csv\<close> stores the one object \<open>np.nan\<close> for every missing field,
  which is found by identity.
\<close>

definition fresh_nan :: "dtype \<Rightarrow> cell list \<Rightarrow> bool" where
  "fresh_nan d col = (d \<noteq> Object \<and> NaN \<in> set col)"

definition py_set_eq :: "dtype \<Rightarrow> cell list \<Rightarrow> dtype \<Rightarrow> cell list \<Rightarrow> bool" where
  "py_set_eq d1 xs d2 ys = (\<not> fresh_nan d1 xs \<and> \<not> fresh_nan d2 ys \<and> set xs = set ys)"

text \<open>
  \<open>set(a['Identifier']) == set(h['Identifier']) == set(f['Identifier'])\<close> is a chained
  comparison: the first equality and, only when it holds, the second (the third column
  is not read otherwise). The three types are those of the three identifier columns.
\<close>

definition ids_match ::
  "dtype \<times> dtype \<times> dtype \<Rightarrow> dataframe \<Rightarrow> dataframe \<Rightarrow> dataframe \<Rightarrow> py_error + bool" where
  "ids_match key_dtypes acct_info holder_info fraud_indicators =
     (case key_dtypes of (da, dh, df) \<Rightarrow>
        (case getitem acct_info ''Identifier'' of
           Inl e \<Rightarrow> Inl e
         | Inr a \<Rightarrow>
             (case getitem holder_info ''Identifier'' of
                Inl e \<Rightarrow> Inl e
              | Inr h \<Rightarrow>
                  if \<not> py_set_eq da a dh h then Inr False
                  else (case getitem fraud_indicators ''Identifier'' of
                          Inl e \<Rightarrow> Inl e
                        | Inr f \<Rightarrow> Inr (py_set_eq dh h df f)))))"

section \<open>Derived features: \<open>create_derived_features\<close>\<close>

subsection \<open>Dates of birth\<close>

text \<open>
  \<open>pd.to_datetime(col, format='%d/%m/%Y', errors='coerce')\<close>. A text is a date when it
  is a day field, a slash, a month field, a slash and a year field, and nothing else:
  the day is one or two digits (or a blank and a digit) for 1 to 31, the month one or
  two digits for 1 to 12, the year four digits. The day must exist in the month, and
  the date must lie in the range of a nanosecond timestamp. Everything else, a missing
  cell included, becomes \<open>NaT\<close>.
\<close>

definition digit_of :: "char \<Rightarrow> nat option" where
  "digit_of c =
     map_of [(CHR ''0'', 0), (CHR ''1'', 1), (CHR ''2'', 2), (CHR ''3'', 3), (CHR ''4'', 4),
             (CHR ''5'', 5), (CHR ''6'', 6), (CHR ''7'', 7), (CHR ''8'', 8), (CHR ''9'', 9)] c"

fun split_on :: "char \<Rightarrow> string \<Rightarrow> string list" where
  "split_on sep [] = [[]]"
| "split_on sep (c # cs) =
     (if c = sep then [] # split_on sep cs
      else (case split_on sep cs of f # fs \<Rightarrow> (c # f) # fs | [] \<Rightarrow> [[c]]))"

definition two_digits :: "char \<Rightarrow> char \<Rightarrow> nat option" where
  "two_digits a b =
     (case digit_of a of
        None \<Rightarrow> None
      | Some x \<Rightarrow> (case digit_of b of None \<Rightarrow> None | Some y \<Rightarrow> Some (10 * x + y)))"

definition in_range :: "nat \<Rightarrow> nat \<Rightarrow> nat option \<Rightarrow> nat option" where
  "in_range lo hi v = (case v of None \<Rightarrow> None | Some n \<Rightarrow> if lo \<le> n \<and> n \<le> hi then Some n else None)"

definition day_field :: "string \<Rightarrow> nat option" where
  "day_field s =
     (case s of
        [a] \<Rightarrow> in_range 1 9 (digit_of a)
      | [a, b] \<Rightarrow> if a = CHR '' '' then in_range 1 9 (digit_of b) else in_range 1 31 (two_digits a b)
      | _ \<Rightarrow> None)"

definition month_field :: "string \<Rightarrow> nat option" where
  "month_field s =
     (case s of
        [a] \<Rightarrow> in_range 1 9 (digit_of a)
      | [a, b] \<Rightarrow> in_range 1 12 (two_digits a b)
      | _ \<Rightarrow> None)"

definition year_field :: "string \<Rightarrow> nat option" where
  "year_field s =
     (case s of
        [a, b, c, d] \<Rightarrow>
          (case two_digits a b of
             None \<Rightarrow> None
           | Some hi \<Rightarrow> (case two_digits c d of None \<Rightarrow> None | Some lo \<Rightarrow> Some (100 * hi + lo)))
      | _ \<Rightarrow> None)"

definition leap_year :: "nat \<Rightarrow> bool" where
  "leap_year y = (y mod 4 = 0 \<and> (y mod 100 \<noteq> 0 \<or> y mod 400 = 0))"

definition days_in_month :: "nat \<Rightarrow> nat \<Rightarrow> nat" where
  "days_in_month y m =
     (if m = 2 then (if leap_year y then 29 else 28)
      else if m = 4 \<or> m = 6 \<or> m = 9 \<or> m = 11 then 30 else 31)"

definition date_le :: "nat \<times> nat \<times> nat \<Rightarrow> nat \<times> nat \<times> nat \<Rightarrow> bool" where
  "date_le a b =
     (case a of (y, m, d) \<Rightarrow> case b of (y', m', d') \<Rightarrow>
        y < y' \<or> (y = y' \<and> (m < m' \<or> (m = m' \<and> d \<le> d'))))"

definition strptime_dmy :: "string \<Rightarrow> (nat \<times> nat \<times> nat) option" where
  "strptime_dmy s =
     (case split_on CHR ''/'' s of
        [ds, ms, ys] \<Rightarrow>
          (case day_field ds of
             None \<Rightarrow> None
           | Some d \<Rightarrow>
               (case month_field ms of
                  None \<Rightarrow> None
                | Some m \<Rightarrow>
                    (case year_field ys of
                       None \<Rightarrow> None
                     | Some y \<Rightarrow>
                         if d \<le> days_in_month y m \<and> date_le (1677, 9, 22) (y, m, d) \<and>
                            date_le (y, m, d) (2262, 4, 11)
                         then Some (y, m, d) else None)))
      | _ \<Rightarrow> None)"

fun to_datetime :: "cell \<Rightarrow> cell" where
  "to_datetime (Str s) =
     (case strptime_dmy s of
        Some (y, m, d) \<Rightarrow> Timestamp (int y) (int m) (int d)
      | None \<Rightarrow> NaT)"
| "to_datetime (Timestamp y m d) = Timestamp y m d"
| "to_datetime _ = NaT"

subsection \<open>Age\<close>

text \<open>
  The function applied to every date of birth:
  \<open>current_date.year - birth_date.year -
    ((current_date.month, current_date.day) < (birth_date.month, birth_date.day))\<close>.
  The fields of a timestamp are integers; the fields of \<open>NaT\<close> are the float \<open>nan\<close>. A
  comparison with \<open>nan\<close> is false, a difference with \<open>nan\<close> is \<open>nan\<close>, and Python orders
  pairs by their first components that are not equal. Any other cell has no such
  fields. The current date is an input of the model.
\<close>

datatype pynum = PInt int | PNan

fun date_fields :: "cell \<Rightarrow> py_error + pynum \<times> pynum \<times> pynum" where
  "date_fields (Timestamp y m d) = Inr (PInt y, PInt m, PInt d)"
| "date_fields NaT = Inr (PNan, PNan, PNan)"
| "date_fields _ = Inl AttributeError"

fun py_eq :: "pynum \<Rightarrow> pynum \<Rightarrow> bool" where
  "py_eq (PInt a) (PInt b) = (a = b)"
| "py_eq _ _ = False"

fun py_lt :: "pynum \<Rightarrow> pynum \<Rightarrow> bool" where
  "py_lt (PInt a) (PInt b) = (a < b)"
| "py_lt _ _ = False"

definition tuple_lt :: "pynum \<times> pynum \<Rightarrow> pynum \<times> pynum \<Rightarrow> bool" where
  "tuple_lt a b =
     (if \<not> py_eq (fst a) (fst b) then py_lt (fst a) (fst b)
      else if \<not> py_eq (snd a) (snd b) then py_lt (snd a) (snd b)
      else False)"

fun py_sub :: "pynum \<Rightarrow> pynum \<Rightarrow> pynum" where
  "py_sub (PInt a) (PInt b) = PInt (a - b)"
| "py_sub _ _ = PNan"

fun cell_of_pynum :: "pynum \<Rightarrow> cell" where
  "cell_of_pynum (PInt a) = Num (of_int a)"
| "cell_of_pynum PNan = NaN"

definition age_of :: "int \<times> int \<times> int \<Rightarrow> cell \<Rightarrow> py_error + cell" where
  "age_of current_date birth_date =
     (case current_date of (cy, cm, cd) \<Rightarrow>
        (case date_fields birth_date of
           Inl e \<Rightarrow> Inl e
         | Inr (by, bm, bd) \<Rightarrow>
             Inr (cell_of_pynum
               (py_sub (py_sub (PInt cy) by)
                  (PInt (if tuple_lt (PInt cm, PInt cd) (bm, bd) then 1 else 0))))))"

text \<open>\<open>Series.apply\<close>: the function on every cell, in order; the first error ends it.\<close>

fun apply_series :: "(cell \<Rightarrow> py_error + cell) \<Rightarrow> cell list \<Rightarrow> py_error + cell list" where
  "apply_series f [] = Inr []"
| "apply_series f (v # vs) =
     (case f v of
        Inl e \<Rightarrow> Inl e
      | Inr w \<Rightarrow> (case apply_series f vs of Inl e \<Rightarrow> Inl e | Inr ws \<Rightarrow> Inr (w # ws)))"

subsection \<open>Buckets\<close>

text \<open>
  \<open>pd.cut(col, bins=edges, labels=names, right=False)\<close>. The position of a number among
  the sorted edges is the count of edges that are not above it
  (\<open>searchsorted(side='right')\<close>). Position 0 (below the first edge) and the last
  position (at or above the last edge) give no bucket; position \<open>i\<close> gives the label
  \<open>i - 1\<close>. A missing value gives no bucket; a text or a date cannot be compared with
  the edges.
\<close>

definition searchsorted_right :: "rat list \<Rightarrow> rat \<Rightarrow> nat" where
  "searchsorted_right edges x = length (takeWhile (\<lambda>b. b \<le> x) edges)"

fun cut :: "rat list \<Rightarrow> string list \<Rightarrow> cell \<Rightarrow> py_error + cell" where
  "cut edges names (Num x) =
     (let i = searchsorted_right edges x
      in if i = 0 \<or> i = length edges then Inr NaN else Inr (Str (names ! (i - 1))))"
| "cut edges names NaN = Inr NaN"
| "cut edges names NaT = Inr NaN"
| "cut edges names _ = Inl TypeError"

definition age_ranges :: "rat list" where
  "age_ranges = [0, 17, 24, 35, 45, 60, 100]"

definition age_categories :: "string list" where
  "age_categories = [''0-17'', ''18-24'', ''25-35'', ''36-45'', ''46-60'', ''60+'']"

definition income_ranges :: "rat list" where
  "income_ranges = [0, 10000, 20000, 30000, 40000, 60000, 80000, 100000]"

definition income_categories :: "string list" where
  "income_categories =
     [''0-10k'', ''10k-20k'', ''20k-30k'', ''30k-40k'', ''40k-60k'', ''60k-80k'', ''80k+'']"

subsection \<open>The feature builder\<close>

definition create_derived_features :: "int \<times> int \<times> int \<Rightarrow> dataframe \<Rightarrow> py_error + dataframe" where
  "create_derived_features current_date df =
     (case getitem df ''DateOfBirth'' of
        Inl e \<Rightarrow> Inl e
      | Inr dob \<Rightarrow>
          (let df1 = setitem df ''DateOfBirth'' (map to_datetime dob) in
           case getitem df1 ''DateOfBirth'' of
             Inl e \<Rightarrow> Inl e
           | Inr birth \<Rightarrow>
               (case apply_series (age_of current_date) birth of
                  Inl e \<Rightarrow> Inl e
                | Inr ages \<Rightarrow>
                    (let df2 = setitem df1 ''Age'' ages in
                     case getitem df2 ''Age'' of
                       Inl e \<Rightarrow> Inl e
                     | Inr age \<Rightarrow>
                         (case apply_series (cut age_ranges age_categories) age of
                            Inl e \<Rightarrow> Inl e
                          | Inr cats \<Rightarrow>
                              (let df3 = setitem df2 ''AgeCategory'' cats in
                               case getitem df3 ''Income'' of
                                 Inl e \<Rightarrow> Inl e
                               | Inr income \<Rightarrow>
                                   (case apply_series (cut income_ranges income_categories) income of
                                      Inl e \<Rightarrow> Inl e
                                    | Inr icats \<Rightarrow> Inr (setitem df3 ''IncomeCategory'' icats))))))))"

section \<open>Analysis: \<open>analyze_fraud_patterns\<close>\<close>

text \<open>
  \<open>df.groupby(keys)['MuleAccount'].sum()\<close>. A row with a null key belongs to no group
  (\<open>dropna=True\<close>); the sum of a group skips null values and is 0 for an empty group.
  The indicator is a numeric column; a cell that is not a number adds nothing in the
  model. The groups come in key order. \<open>AgeCategory\<close> is the categorical column made by
  \<open>pd.cut\<close>, so its keys are the category labels in their order; with \<open>observed=False\<close>
  (the default up to pandas 2) every category appears, with \<open>observed=True\<close> only
  those that occur. The keys of \<open>Gender\<close> are its distinct values that are not null,
  sorted. For the pair of keys the groups are the pairs of the two key lists (all of
  them, or the pairs that occur, according to \<open>observed\<close>).
\<close>

fun num_of :: "cell \<Rightarrow> rat" where
  "num_of (Num x) = x"
| "num_of _ = 0"

definition nansum :: "cell list \<Rightarrow> rat" where
  "nansum vs = sum_list (map num_of vs)"

fun cell_le :: "cell \<Rightarrow> cell \<Rightarrow> bool" where
  "cell_le (Num a) (Num b) = (a \<le> b)"
| "cell_le (Str a) (Str b) = (a \<le> b)"
| "cell_le (Num a) _ = True"
| "cell_le _ (Num b) = False"
| "cell_le _ _ = True"

fun insert_cell :: "cell \<Rightarrow> cell list \<Rightarrow> cell list" where
  "insert_cell v [] = [v]"
| "insert_cell v (w # ws) = (if cell_le v w then v # w # ws else w # insert_cell v ws)"

definition sorted_unique :: "cell list \<Rightarrow> cell list" where
  "sorted_unique vs = foldr insert_cell (remdups (filter (\<lambda>v. \<not> isna v) vs)) []"

definition category_keys :: "bool \<Rightarrow> string list \<Rightarrow> cell list \<Rightarrow> cell list" where
  "category_keys observed cats col =
     map Str (if observed then filter (\<lambda>k. Str k \<in> set col) cats else cats)"

definition sum_where :: "dataframe \<Rightarrow> (cell list \<Rightarrow> bool) \<Rightarrow> string \<Rightarrow> rat" where
  "sum_where df p val = nansum (map (\<lambda>r. cell_at (columns df) r val) (filter p (rows df)))"

definition groupby_sum :: "dataframe \<Rightarrow> cell list \<Rightarrow> string \<Rightarrow> string \<Rightarrow> (cell \<times> rat) list" where
  "groupby_sum df keys by val =
     map (\<lambda>k. (k, sum_where df (\<lambda>r. cell_at (columns df) r by = k) val)) keys"

definition pair_keys ::
  "bool \<Rightarrow> dataframe \<Rightarrow> string \<Rightarrow> cell list \<Rightarrow> string \<Rightarrow> cell list \<Rightarrow> (cell \<times> cell) list" where
  "pair_keys observed df by1 keys1 by2 keys2 =
     (if observed
      then filter
             (\<lambda>(a, g). (a, g) \<in> set (map (\<lambda>r. (cell_at (columns df) r by1, cell_at (columns df) r by2)) (rows df)))
             (List.product keys1 keys2)
      else List.product keys1 keys2)"

definition groupby_sum2 ::
  "dataframe \<Rightarrow> (cell \<times> cell) list \<Rightarrow> string \<Rightarrow> string \<Rightarrow> string \<Rightarrow> (cell \<times> cell \<times> rat) list" where
  "groupby_sum2 df keys by1 by2 val =
     map (\<lambda>(a, g).
            (a, g, sum_where df (\<lambda>r. cell_at (columns df) r by1 = a \<and> cell_at (columns df) r by2 = g) val))
         keys"

text \<open>
  \<open>sort_values(by='MuleAccount', ascending=False)\<close> uses the default sort kind, whose
  order among equal sums pandas does not fix. The sort is therefore an argument of
  the model; what pandas promises of it is that the result holds the same rows and is
  in descending order of the sum.
\<close>

type_synonym group = "cell \<times> cell \<times> rat"

definition mule_sum :: "group \<Rightarrow> rat" where
  "mule_sum g = snd (snd g)"

definition descending :: "group list \<Rightarrow> bool" where
  "descending gs = sorted_wrt (\<lambda>g g'. mule_sum g \<ge> mule_sum g') gs"

definition sort_values_spec :: "(group list \<Rightarrow> group list) \<Rightarrow> bool" where
  "sort_values_spec srt = (\<forall>gs. mset (srt gs) = mset gs \<and> descending (srt gs))"


text \<open>One stable sort: insertion from the right, on the negated sum.\<close>

definition stable_desc :: "group list \<Rightarrow> group list" where
  "stable_desc gs = sort_key (\<lambda>g. - mule_sum g) gs"

text \<open>
  \<open>df.groupby(['AgeCategory', 'Gender'])['MuleAccount'].sum().reset_index()\<close>: the table
  of the combinations before it is sorted.
\<close>

definition grouped_combinations :: "bool \<Rightarrow> dataframe \<Rightarrow> group list" where
  "grouped_combinations observed df =
     groupby_sum2 df
       (pair_keys observed df ''AgeCategory'' (map Str age_categories) ''Gender''
          (sorted_unique (series df ''Gender'')))
       ''AgeCategory'' ''Gender'' ''MuleAccount''"

record analysis =
  age_cat_results :: "(cell \<times> rat) list"
  gender_breakdown :: "(cell \<times> rat) list"
  fraud_analysis :: "group list"
  printed_head :: "group list"

definition analyze_fraud_patterns ::
  "bool \<Rightarrow> (group list \<Rightarrow> group list) \<Rightarrow> dataframe \<Rightarrow> py_error + analysis" where
  "analyze_fraud_patterns observed srt df =
     (if ''AgeCategory'' \<notin> set (columns df) then Inl (KeyError ''AgeCategory'')
      else if ''MuleAccount'' \<notin> set (columns df) then Inl (KeyError ''MuleAccount'')
      else if ''Gender'' \<notin> set (columns df) then Inl (KeyError ''Gender'')
      else
        (let age_keys = category_keys observed age_categories (series df ''AgeCategory'');
             gender_keys = sorted_unique (series df ''Gender'');
             sorted_groups = srt (grouped_combinations observed df)
         in Inr
              \<lparr>age_cat_results = groupby_sum df age_keys ''AgeCategory'' ''MuleAccount'',
               gender_breakdown = groupby_sum df gender_keys ''Gender'' ''MuleAccount'',
               fraud_analysis = sorted_groups,
               printed_head = take 5 sorted_groups\<rparr>))"



section \<open>Example tables\<close>

text \<open>
  Three small tables: three accounts; three holder rows of which the second repeats
  the first, the third without any attribute, and none for account 2; three flags, one
  of them missing.
\<close>

definition ex_acct :: dataframe where
  "ex_acct = \<lparr>columns = [''Identifier'', ''AccountLength'', ''AverageBalance''],
     rows = [[Num 1, Num 12, NaN], [Num 2, NaN, Num 100], [Num 3, Num 5, Num 7]]\<rparr>"
definition ex_holder :: dataframe where
  "ex_holder = \<lparr>columns = [''Identifier'', ''DateOfBirth'', ''Gender'', ''Income''],
     rows = [[Num 1, Str ''15/06/1990'', Str ''F'', Num 25000], [Num 1, Str ''15/06/1990'', Str ''F'', Num 25000],
             [Num 3, NaN, NaN, NaN]]\<rparr>"
definition ex_fraud :: dataframe where
  "ex_fraud = \<lparr>columns = [''Identifier'', ''MuleAccount''],
     rows = [[Num 1, Num 1], [Num 2, NaN], [Num 3, Num 1]]\<rparr>"

text \<open>
  Three tables with the same two identifiers, the second of them missing. The
  identifier columns are numeric (\<open>float64\<close>, as a column with a missing number is).
\<close>

definition ex_gap_acct :: dataframe where
  "ex_gap_acct = \<lparr>columns = [''Identifier'', ''AccountLength''],
     rows = [[Num 1, Num 12], [NaN, Num 3]]\<rparr>"
definition ex_gap_holder :: dataframe where
  "ex_gap_holder = \<lparr>columns = [''Identifier'', ''Gender''],
     rows = [[Num 1, Str ''F''], [NaN, Str ''M'']]\<rparr>"
definition ex_gap_fraud :: dataframe where
  "ex_gap_fraud = \<lparr>columns = [''Identifier'', ''MuleAccount''],
     rows = [[Num 1, Num 1], [NaN, Num 0]]\<rparr>"









definition ex_null_keys :: dataframe where
  "ex_null_keys =
     \<lparr>columns = [''Identifier'', ''DateOfBirth'', ''Gender'', ''Income'', ''MuleAccount''],
      rows = [[Num 1, Str ''15/06/1990'', Str ''F'', Num 25000, Num 1],
              [Num 2, NaN, NaN, NaN, Num 1]]\<rparr>"

text \<open>A merged table of one account whose holder was born on 14 June 2007.\<close>

definition ex_seventeen :: dataframe where
  "ex_seventeen =
     \<lparr>columns = [''Identifier'', ''DateOfBirth'', ''Gender'', ''Income'', ''MuleAccount''],
      rows = [[Num 7, Str ''14/06/2007'', Str ''M'', Num 0, Num 0]]\<rparr>"

section \<open>Duplicate removal is idempotent\<close>

lemma kept_keep_first:
  "map fst (filter (\<lambda>(r, d). \<not> d) (zip rs (duplicated_from seen rs))) = keep_first seen rs"
  by (induction rs arbitrary: seen) auto

lemma drop_duplicates_rows: "drop_duplicates df = df\<lparr>rows := keep_first [] (rows df)\<rparr>"
  by (simp add: drop_duplicates_def duplicated_def kept_keep_first)

lemma set_keep_first: "set (keep_first seen rs) = set rs - set seen"
  by (induction rs arbitrary: seen) auto

lemma distinct_keep_first: "distinct (keep_first seen rs)"
  by (induction rs arbitrary: seen) (auto simp: set_keep_first)

lemma keep_first_id: "distinct rs \<Longrightarrow> set rs \<inter> set seen = {} \<Longrightarrow> keep_first seen rs = rs"
  by (induction rs arbitrary: seen) auto

lemma keep_first_idem: "keep_first [] (keep_first [] rs) = keep_first [] rs"
  by (rule keep_first_id) (simp_all add: distinct_keep_first)

lemma subseq_keep_first: "subseq (keep_first seen rs) rs"
  by (induction rs arbitrary: seen) auto

lemma length_duplicated_from: "length (duplicated_from seen rs) = length rs"
  by (induction rs arbitrary: seen) auto

lemma duplicated_from_nth:
  "i < length rs \<Longrightarrow> duplicated_from seen rs ! i = (rs ! i \<in> set seen \<union> set (take i rs))"
proof (induction rs arbitrary: seen i)
  case Nil
  then show ?case by simp
next
  case (Cons r rs)
  show ?case
  proof (cases i)
    case 0
    then show ?thesis by simp
  next
    case (Suc j)
    with Cons.prems have "j < length rs" by simp
    from Cons.IH [OF this, of "r # seen"] Suc show ?thesis by auto
  qed
qed

text \<open>
  Claim C7. Removing duplicate rows twice gives the same table as removing them once.
  The removal keeps the header, keeps the rows in their order, leaves no two equal
  rows, loses no row value, and marks a row for deletion exactly when an equal row
  stands before it (so the first occurrence is the one kept).
\<close>

theorem drop_duplicates_idempotent:
  "drop_duplicates (drop_duplicates df) = drop_duplicates df \<and>
   columns (drop_duplicates df) = columns df \<and>
   subseq (rows (drop_duplicates df)) (rows df) \<and>
   distinct (rows (drop_duplicates df)) \<and>
   set (rows (drop_duplicates df)) = set (rows df) \<and>
   length (duplicated df) = length (rows df) \<and>
   (\<forall>i < length (rows df). duplicated df ! i = (rows df ! i \<in> set (take i (rows df))))"
proof -
  have "drop_duplicates (drop_duplicates df) = drop_duplicates df"
    by (simp add: drop_duplicates_rows keep_first_idem)
  moreover have "columns (drop_duplicates df) = columns df"
    by (simp add: drop_duplicates_rows)
  moreover have "subseq (rows (drop_duplicates df)) (rows df)"
    by (simp add: drop_duplicates_rows subseq_keep_first)
  moreover have "distinct (rows (drop_duplicates df))"
    by (simp add: drop_duplicates_rows distinct_keep_first)
  moreover have "set (rows (drop_duplicates df)) = set (rows df)"
    by (simp add: drop_duplicates_rows set_keep_first)
  moreover have "length (duplicated df) = length (rows df)"
    by (simp add: duplicated_def length_duplicated_from)
  moreover have "\<forall>i < length (rows df). duplicated df ! i = (rows df ! i \<in> set (take i (rows df)))"
    by (simp add: duplicated_def duplicated_from_nth)
  ultimately show ?thesis by blast
qed

theorem drop_duplicates_idempotent_witness:
  "drop_duplicates (drop_duplicates ex_holder) = drop_duplicates ex_holder \<and>
   duplicated ex_holder = [False, True, False] \<and>
   rows (drop_duplicates ex_holder) =
     [[Num 1, Str ''15/06/1990'', Str ''F'', Num 25000], [Num 3, NaN, NaN, NaN]]"
proof -
  have "drop_duplicates (drop_duplicates ex_holder) = drop_duplicates ex_holder"
    using drop_duplicates_idempotent [of ex_holder] by blast
  moreover have "duplicated ex_holder = [False, True, False]"
    by (simp add: duplicated_def ex_holder_def)
  moreover have "rows (drop_duplicates ex_holder) =
     [[Num 1, Str ''15/06/1990'', Str ''F'', Num 25000], [Num 3, NaN, NaN, NaN]]"
    by (simp add: drop_duplicates_def duplicated_def ex_holder_def)
  ultimately show ?thesis by blast
qed

section \<open>Cleaning leaves no nulls in the named columns\<close>

lemma columns_clean [simp]:
  "columns (fillna_dict d df) = columns df"
  "columns (fillna_scalar v df) = columns df"
  "columns (drop_duplicates df) = columns df"
  by (simp_all add: fillna_dict_def fillna_scalar_def drop_duplicates_def)

lemma zip_refilled:
  "(c, w) \<in> set (zip ks (map (\<lambda>(k, v). g k v) (zip ks r))) \<Longrightarrow>
     \<exists>v. (c, v) \<in> set (zip ks r) \<and> w = g c v"
proof (induction ks arbitrary: r)
  case Nil
  then show ?case by simp
next
  case (Cons k ks)
  then show ?case by (cases r) auto
qed

lemma fill_cell_named:
  assumes "c \<in> fst ` set d" and "\<forall>(k, dflt) \<in> set d. \<not> isna dflt"
  shows "\<not> isna (fill_cell d c v)"
proof -
  from assms(1) obtain dflt where m: "map_of d c = Some dflt"
    by (metis domIff dom_map_of_conv_image_fst not_Some_eq)
  then have "(c, dflt) \<in> set d" by (rule map_of_SomeD)
  with assms(2) have "\<not> isna dflt" by auto
  with m show ?thesis by (simp add: fill_cell_def)
qed

lemma fillna_dict_named:
  assumes "\<forall>(k, dflt) \<in> set d. \<not> isna dflt"
    and "r \<in> set (rows (fillna_dict d df))"
    and "(c, v) \<in> set (zip (columns (fillna_dict d df)) r)"
    and "c \<in> fst ` set d"
  shows "\<not> isna v"
proof -
  from assms(2) obtain r0 where r: "r = map (\<lambda>(k, x). fill_cell d k x) (zip (columns df) r0)"
    by (auto simp: fillna_dict_def)
  from assms(3) have "(c, v) \<in> set (zip (columns df) r)" by (simp add: fillna_dict_def)
  with r obtain x where "v = fill_cell d c x" using zip_refilled [of c v "columns df" "fill_cell d" r0] by auto
  with assms(1,4) show ?thesis by (simp add: fill_cell_named)
qed

lemma fillna_scalar_all:
  assumes "\<not> isna dflt" and "r \<in> set (rows (fillna_scalar dflt df))" and "v \<in> set r"
  shows "\<not> isna v"
  using assms by (auto simp: fillna_scalar_def)

lemma acct_defaults_present: "\<forall>(k, dflt) \<in> set acct_default_vals. dflt = Num (- 1)"
  by (simp add: acct_default_vals_def)

lemma holder_defaults_present:
  "\<forall>(k, dflt) \<in> set holder_default_vals. dflt = Num (- 1) \<or> dflt = Str ''Missing''"
  by (simp add: holder_default_vals_def)

lemma default_counts:
  "length acct_default_vals = 9 \<and> distinct (map fst acct_default_vals) \<and>
   length holder_default_vals = 12 \<and> distinct (map fst holder_default_vals)"
  by (simp add: acct_default_vals_def holder_default_vals_def)

lemma fillna_dict_cell:
  assumes "i < length (rows df)" and "j < length (columns df)" and "j < length (rows df ! i)"
  shows "rows (fillna_dict d df) ! i ! j = fill_cell d (columns df ! j) (rows df ! i ! j)"
  using assms by (simp add: fillna_dict_def)

lemma fillna_dict_shape:
  "length (rows (fillna_dict d df)) = length (rows df)"
  "i < length (rows df) \<Longrightarrow>
     length (rows (fillna_dict d df) ! i) = min (length (columns df)) (length (rows df ! i))"
  by (simp_all add: fillna_dict_def)

lemma fillna_scalar_cell:
  assumes "i < length (rows df)" and "j < length (rows df ! i)"
  shows "rows (fillna_scalar dflt df) ! i ! j = (if isna (rows df ! i ! j) then dflt else rows df ! i ! j)"
  using assms by (simp add: fillna_scalar_def)

lemma fillna_scalar_shape:
  "length (rows (fillna_scalar dflt df)) = length (rows df)"
  "i < length (rows df) \<Longrightarrow> length (rows (fillna_scalar dflt df) ! i) = length (rows df ! i)"
  by (simp_all add: fillna_scalar_def)

lemma fill_cell_acct:
  "fill_cell acct_default_vals c v =
     (if isna v \<and>
         c \<in> set [''AccountLength'', ''AverageBalance'', ''NumTransactions'', ''NumDeposits'',
                  ''NumWithdrawals'', ''NumTransfers'', ''NumLoans'', ''NumCreditCards'',
                  ''NumSavingsAccounts'']
      then Num (- 1) else v)"
  by (simp add: fill_cell_def acct_default_vals_def)

lemma fill_cell_holder:
  "fill_cell holder_default_vals c v =
     (if isna v \<and>
         c \<in> set [''Income'', ''CreditScore'', ''LoanAmount'', ''NumDependents'',
                  ''SocialMediaUsageHours'', ''ShoppingFrequencyPerMonth'']
      then Num (- 1)
      else if isna v \<and>
         c \<in> set [''DateOfBirth'', ''Gender'', ''EmploymentStatus'', ''MaritalStatus'',
                  ''OccupancyStatus'', ''HealthInsuranceStatus'']
      then Str ''Missing'' else v)"
  by (simp add: fill_cell_def holder_default_vals_def)

text \<open>
  Claim C3. \<open>clean_data\<close> keeps the header and the rows of the account table and of the
  flag table, and those of the holder table once its repeated rows are removed. In the
  account table a null cell under one of the nine named columns becomes \<open>-1\<close>; in the
  holder table a null cell under one of the six named numeric columns becomes \<open>-1\<close> and
  one under one of the six named categorical columns becomes the text \<open>Missing\<close>; in
  the flag table every null cell becomes \<open>0\<close>. Every other cell is kept as it was.
  Hence no cell under a named column of the account or holder table is null, and no
  cell of the flag table (the flag column in particular) is null.
\<close>

theorem clean_data_no_nulls:
  assumes "clean_data acct_info holder_info fraud_indicators = (a, h, f)"
  shows "columns a = columns acct_info \<and> length (rows a) = length (rows acct_info) \<and>
         (\<forall>i < length (rows acct_info).
            length (rows a ! i) = min (length (columns acct_info)) (length (rows acct_info ! i)) \<and>
            (\<forall>j < min (length (columns acct_info)) (length (rows acct_info ! i)).
               rows a ! i ! j =
                 (if isna (rows acct_info ! i ! j) \<and>
                     columns acct_info ! j \<in>
                       set [''AccountLength'', ''AverageBalance'', ''NumTransactions'', ''NumDeposits'',
                            ''NumWithdrawals'', ''NumTransfers'', ''NumLoans'', ''NumCreditCards'',
                            ''NumSavingsAccounts'']
                  then Num (- 1) else rows acct_info ! i ! j))) \<and>
         columns h = columns holder_info \<and>
         length (rows h) = length (rows (drop_duplicates holder_info)) \<and>
         (\<forall>i < length (rows (drop_duplicates holder_info)).
            length (rows h ! i) =
              min (length (columns holder_info)) (length (rows (drop_duplicates holder_info) ! i)) \<and>
            (\<forall>j < min (length (columns holder_info)) (length (rows (drop_duplicates holder_info) ! i)).
               rows h ! i ! j =
                 (if isna (rows (drop_duplicates holder_info) ! i ! j) \<and>
                     columns holder_info ! j \<in>
                       set [''Income'', ''CreditScore'', ''LoanAmount'', ''NumDependents'',
                            ''SocialMediaUsageHours'', ''ShoppingFrequencyPerMonth'']
                  then Num (- 1)
                  else if isna (rows (drop_duplicates holder_info) ! i ! j) \<and>
                     columns holder_info ! j \<in>
                       set [''DateOfBirth'', ''Gender'', ''EmploymentStatus'', ''MaritalStatus'',
                            ''OccupancyStatus'', ''HealthInsuranceStatus'']
                  then Str ''Missing''
                  else rows (drop_duplicates holder_info) ! i ! j))) \<and>
         columns f = columns fraud_indicators \<and>
         length (rows f) = length (rows fraud_indicators) \<and>
         (\<forall>i < length (rows fraud_indicators).
            length (rows f ! i) = length (rows fraud_indicators ! i) \<and>
            (\<forall>j < length (rows fraud_indicators ! i).
               rows f ! i ! j =
                 (if isna (rows fraud_indicators ! i ! j) then Num 0 else rows fraud_indicators ! i ! j))) \<and>
         (\<forall>r \<in> set (rows a). \<forall>(c, v) \<in> set (zip (columns a) r).
            c \<in> fst ` set acct_default_vals \<longrightarrow> \<not> isna v) \<and>
         (\<forall>r \<in> set (rows h). \<forall>(c, v) \<in> set (zip (columns h) r).
            c \<in> fst ` set holder_default_vals \<longrightarrow> \<not> isna v) \<and>
         (\<forall>r \<in> set (rows f). \<forall>v \<in> set r. \<not> isna v) \<and>
         length acct_default_vals = 9 \<and> length holder_default_vals = 12 \<and>
         (\<forall>(k, dflt) \<in> set acct_default_vals. dflt = Num (- 1)) \<and>
         (\<forall>(k, dflt) \<in> set holder_default_vals. dflt = Num (- 1) \<or> dflt = Str ''Missing'')"
proof -
  let ?hd = "drop_duplicates holder_info"
  from assms have a: "a = fillna_dict acct_default_vals acct_info"
    and h: "h = fillna_dict holder_default_vals ?hd"
    and f: "f = fillna_scalar (Num 0) fraud_indicators"
    by (simp_all add: clean_data_def)
  have da: "\<forall>(k, dflt) \<in> set acct_default_vals. \<not> isna dflt"
    using acct_defaults_present by fastforce
  have dh: "\<forall>(k, dflt) \<in> set holder_default_vals. \<not> isna dflt"
    using holder_defaults_present by fastforce
  have a1: "columns a = columns acct_info \<and> length (rows a) = length (rows acct_info)"
    by (simp add: a fillna_dict_shape)
  have a2: "\<forall>i < length (rows acct_info).
            length (rows a ! i) = min (length (columns acct_info)) (length (rows acct_info ! i)) \<and>
            (\<forall>j < min (length (columns acct_info)) (length (rows acct_info ! i)).
               rows a ! i ! j =
                 (if isna (rows acct_info ! i ! j) \<and>
                     columns acct_info ! j \<in>
                       set [''AccountLength'', ''AverageBalance'', ''NumTransactions'', ''NumDeposits'',
                            ''NumWithdrawals'', ''NumTransfers'', ''NumLoans'', ''NumCreditCards'',
                            ''NumSavingsAccounts'']
                  then Num (- 1) else rows acct_info ! i ! j))"
  proof (intro allI impI conjI)
    fix i assume i: "i < length (rows acct_info)"
    show "length (rows a ! i) = min (length (columns acct_info)) (length (rows acct_info ! i))"
      using i by (simp add: a fillna_dict_shape)
    fix j assume j: "j < min (length (columns acct_info)) (length (rows acct_info ! i))"
    then have "j < length (columns acct_info)" and "j < length (rows acct_info ! i)" by simp_all
    from fillna_dict_cell [OF i this]
    have "rows a ! i ! j = fill_cell acct_default_vals (columns acct_info ! j) (rows acct_info ! i ! j)"
      by (simp add: a)
    then show "rows a ! i ! j =
                 (if isna (rows acct_info ! i ! j) \<and>
                     columns acct_info ! j \<in>
                       set [''AccountLength'', ''AverageBalance'', ''NumTransactions'', ''NumDeposits'',
                            ''NumWithdrawals'', ''NumTransfers'', ''NumLoans'', ''NumCreditCards'',
                            ''NumSavingsAccounts'']
                  then Num (- 1) else rows acct_info ! i ! j)"
      by (simp only: fill_cell_acct)
  qed
  have h1: "columns h = columns holder_info \<and> length (rows h) = length (rows ?hd)"
    by (simp add: h fillna_dict_shape)
  have h2: "\<forall>i < length (rows ?hd).
            length (rows h ! i) = min (length (columns holder_info)) (length (rows ?hd ! i)) \<and>
            (\<forall>j < min (length (columns holder_info)) (length (rows ?hd ! i)).
               rows h ! i ! j =
                 (if isna (rows ?hd ! i ! j) \<and>
                     columns holder_info ! j \<in>
                       set [''Income'', ''CreditScore'', ''LoanAmount'', ''NumDependents'',
                            ''SocialMediaUsageHours'', ''ShoppingFrequencyPerMonth'']
                  then Num (- 1)
                  else if isna (rows ?hd ! i ! j) \<and>
                     columns holder_info ! j \<in>
                       set [''DateOfBirth'', ''Gender'', ''EmploymentStatus'', ''MaritalStatus'',
                            ''OccupancyStatus'', ''HealthInsuranceStatus'']
                  then Str ''Missing''
                  else rows ?hd ! i ! j))"
  proof (intro allI impI conjI)
    fix i assume i: "i < length (rows ?hd)"
    show "length (rows h ! i) = min (length (columns holder_info)) (length (rows ?hd ! i))"
      using i by (simp add: h fillna_dict_shape)
    fix j assume j: "j < min (length (columns holder_info)) (length (rows ?hd ! i))"
    then have "j < length (columns ?hd)" and "j < length (rows ?hd ! i)" by simp_all
    from fillna_dict_cell [OF i this]
    have "rows h ! i ! j = fill_cell holder_default_vals (columns holder_info ! j) (rows ?hd ! i ! j)"
      by (simp add: h)
    then show "rows h ! i ! j =
                 (if isna (rows ?hd ! i ! j) \<and>
                     columns holder_info ! j \<in>
                       set [''Income'', ''CreditScore'', ''LoanAmount'', ''NumDependents'',
                            ''SocialMediaUsageHours'', ''ShoppingFrequencyPerMonth'']
                  then Num (- 1)
                  else if isna (rows ?hd ! i ! j) \<and>
                     columns holder_info ! j \<in>
                       set [''DateOfBirth'', ''Gender'', ''EmploymentStatus'', ''MaritalStatus'',
                            ''OccupancyStatus'', ''HealthInsuranceStatus'']
                  then Str ''Missing''
                  else rows ?hd ! i ! j)"
      by (simp only: fill_cell_holder)
  qed
  have f1: "columns f = columns fraud_indicators \<and> length (rows f) = length (rows fraud_indicators)"
    by (simp add: f fillna_scalar_shape)
  have f2: "\<forall>i < length (rows fraud_indicators).
            length (rows f ! i) = length (rows fraud_indicators ! i) \<and>
            (\<forall>j < length (rows fraud_indicators ! i).
               rows f ! i ! j =
                 (if isna (rows fraud_indicators ! i ! j) then Num 0 else rows fraud_indicators ! i ! j))"
    by (simp add: f fillna_scalar_shape fillna_scalar_cell)
  have na: "\<forall>r \<in> set (rows a). \<forall>(c, v) \<in> set (zip (columns a) r).
          c \<in> fst ` set acct_default_vals \<longrightarrow> \<not> isna v"
    unfolding a using fillna_dict_named [OF da] by blast
  have nh: "\<forall>r \<in> set (rows h). \<forall>(c, v) \<in> set (zip (columns h) r).
          c \<in> fst ` set holder_default_vals \<longrightarrow> \<not> isna v"
    unfolding h using fillna_dict_named [OF dh] by blast
  have nf: "\<forall>r \<in> set (rows f). \<forall>v \<in> set r. \<not> isna v"
    unfolding f using fillna_scalar_all [of "Num 0"] by auto
  have dc: "length acct_default_vals = 9 \<and> length holder_default_vals = 12"
    using default_counts by simp
  show ?thesis
    apply (intro conjI)
    using a1 a2 h1 h2 f1 f2 na nh nf dc acct_defaults_present holder_defaults_present
    by blast+
qed

theorem clean_data_no_nulls_witness:
  "clean_data ex_acct ex_holder ex_fraud =
     (\<lparr>columns = [''Identifier'', ''AccountLength'', ''AverageBalance''],
       rows = [[Num 1, Num 12, Num (- 1)], [Num 2, Num (- 1), Num 100], [Num 3, Num 5, Num 7]]\<rparr>,
      \<lparr>columns = [''Identifier'', ''DateOfBirth'', ''Gender'', ''Income''],
       rows = [[Num 1, Str ''15/06/1990'', Str ''F'', Num 25000],
               [Num 3, Str ''Missing'', Str ''Missing'', Num (- 1)]]\<rparr>,
      \<lparr>columns = [''Identifier'', ''MuleAccount''],
       rows = [[Num 1, Num 1], [Num 2, Num 0], [Num 3, Num 1]]\<rparr>) \<and>
   rows ex_acct ! 1 ! 1 = NaN \<and> rows ex_holder ! 2 ! 3 = NaN \<and> rows ex_holder ! 2 ! 2 = NaN \<and>
   rows ex_fraud ! 1 ! 1 = NaN \<and>
   length (rows (fst (clean_data ex_acct ex_holder ex_fraud))) = length (rows ex_acct) \<and>
   length (rows (snd (snd (clean_data ex_acct ex_holder ex_fraud)))) = length (rows ex_fraud) \<and>
   \<not> isna (Num (- 1)) \<and> \<not> isna (Str ''Missing'') \<and> \<not> isna (Num 0)"
proof -
  have c: "clean_data ex_acct ex_holder ex_fraud =
     (\<lparr>columns = [''Identifier'', ''AccountLength'', ''AverageBalance''],
       rows = [[Num 1, Num 12, Num (- 1)], [Num 2, Num (- 1), Num 100], [Num 3, Num 5, Num 7]]\<rparr>,
      \<lparr>columns = [''Identifier'', ''DateOfBirth'', ''Gender'', ''Income''],
       rows = [[Num 1, Str ''15/06/1990'', Str ''F'', Num 25000],
               [Num 3, Str ''Missing'', Str ''Missing'', Num (- 1)]]\<rparr>,
      \<lparr>columns = [''Identifier'', ''MuleAccount''],
       rows = [[Num 1, Num 1], [Num 2, Num 0], [Num 3, Num 1]]\<rparr>)"
    by (simp add: clean_data_def fillna_dict_def fillna_scalar_def drop_duplicates_def duplicated_def
        fill_cell_def acct_default_vals_def holder_default_vals_def ex_acct_def ex_holder_def ex_fraud_def)
  have p: "clean_data ex_acct ex_holder ex_fraud =
      (fst (clean_data ex_acct ex_holder ex_fraud), fst (snd (clean_data ex_acct ex_holder ex_fraud)),
       snd (snd (clean_data ex_acct ex_holder ex_fraud)))"
    by simp
  from clean_data_no_nulls [OF p]
  have "length (rows (fst (clean_data ex_acct ex_holder ex_fraud))) = length (rows ex_acct) \<and>
        length (rows (snd (snd (clean_data ex_acct ex_holder ex_fraud)))) = length (rows ex_fraud)"
    by blast
  moreover have "rows ex_acct ! 1 ! 1 = NaN \<and> rows ex_holder ! 2 ! 3 = NaN \<and>
                 rows ex_holder ! 2 ! 2 = NaN \<and> rows ex_fraud ! 1 ! 1 = NaN"
    by (simp add: ex_acct_def ex_holder_def ex_fraud_def)
  ultimately show ?thesis using c by simp
qed

section \<open>Rounding to double precision\<close>









section \<open>The audit's missing percentage\<close>









section \<open>The identifier check\<close>

lemma getitem_identifier:
  "''Identifier'' \<in> set (columns df) \<Longrightarrow> getitem df ''Identifier'' = Inr (identifiers df)"
  by (simp add: getitem_def identifiers_def)

text \<open>
  Claim C8, as amended. For three tables that have the identifier column, the check
  returns true exactly when the three sets of identifiers are equal and no numeric
  identifier column has a missing value. It returns false as soon as one table lacks
  an identifier that another has. When no identifier is missing at all, it returns
  true exactly when the three sets are equal.
\<close>

theorem ids_match_iff_equal_sets:
  assumes "''Identifier'' \<in> set (columns a)"
    and "''Identifier'' \<in> set (columns h)"
    and "''Identifier'' \<in> set (columns f)"
  shows "ids_match (da, dh, df) a h f =
           Inr (set (identifiers a) = set (identifiers h) \<and>
                set (identifiers h) = set (identifiers f) \<and>
                set (identifiers a) = set (identifiers f) \<and>
                \<not> (da \<noteq> Object \<and> NaN \<in> set (identifiers a)) \<and>
                \<not> (dh \<noteq> Object \<and> NaN \<in> set (identifiers h)) \<and>
                \<not> (df \<noteq> Object \<and> NaN \<in> set (identifiers f))) \<and>
         ((\<exists>x. (x \<in> set (identifiers a) \<and> (x \<notin> set (identifiers h) \<or> x \<notin> set (identifiers f))) \<or>
               (x \<in> set (identifiers h) \<and> (x \<notin> set (identifiers a) \<or> x \<notin> set (identifiers f))) \<or>
               (x \<in> set (identifiers f) \<and> (x \<notin> set (identifiers a) \<or> x \<notin> set (identifiers h))))
          \<longrightarrow> ids_match (da, dh, df) a h f = Inr False) \<and>
         ((\<forall>v \<in> set (identifiers a) \<union> set (identifiers h) \<union> set (identifiers f). \<not> isna v)
          \<longrightarrow> ids_match (da, dh, df) a h f =
                 Inr (set (identifiers a) = set (identifiers h) \<and>
                      set (identifiers h) = set (identifiers f) \<and>
                      set (identifiers a) = set (identifiers f)))"
proof -
  let ?A = "set (identifiers a)" and ?H = "set (identifiers h)" and ?F = "set (identifiers f)"
  let ?na = "da \<noteq> Object \<and> NaN \<in> ?A" and ?nh = "dh \<noteq> Object \<and> NaN \<in> ?H"
    and ?nf = "df \<noteq> Object \<and> NaN \<in> ?F"
  have eq: "ids_match (da, dh, df) a h f =
      Inr (?A = ?H \<and> ?H = ?F \<and> ?A = ?F \<and> \<not> ?na \<and> \<not> ?nh \<and> \<not> ?nf)"
    using assms by (auto simp: ids_match_def getitem_identifier py_set_eq_def fresh_nan_def)
  have miss: "(\<exists>x. (x \<in> ?A \<and> (x \<notin> ?H \<or> x \<notin> ?F)) \<or> (x \<in> ?H \<and> (x \<notin> ?A \<or> x \<notin> ?F)) \<or>
                   (x \<in> ?F \<and> (x \<notin> ?A \<or> x \<notin> ?H)))
          \<longrightarrow> ids_match (da, dh, df) a h f = Inr False"
    unfolding eq by auto
  have full: "(\<forall>v \<in> ?A \<union> ?H \<union> ?F. \<not> isna v)
          \<longrightarrow> ids_match (da, dh, df) a h f = Inr (?A = ?H \<and> ?H = ?F \<and> ?A = ?F)"
  proof
    assume n: "\<forall>v \<in> ?A \<union> ?H \<union> ?F. \<not> isna v"
    have "isna NaN" by simp
    with n have "NaN \<notin> ?A \<union> ?H \<union> ?F" by blast
    then have "NaN \<notin> ?A" "NaN \<notin> ?H" "NaN \<notin> ?F" by simp_all
    then show "ids_match (da, dh, df) a h f = Inr (?A = ?H \<and> ?H = ?F \<and> ?A = ?F)"
      unfolding eq by simp
  qed
  from eq miss full show ?thesis by (intro conjI)
qed

theorem ids_match_iff_equal_sets_witness:
  "ids_match (Int64, Int64, Int64) ex_acct ex_fraud ex_acct = Inr True \<and>
   identifiers ex_acct = [Num 1, Num 2, Num 3] \<and>
   identifiers ex_fraud = [Num 1, Num 2, Num 3] \<and>
   identifiers ex_holder = [Num 1, Num 1, Num 3] \<and>
   ids_match (Int64, Int64, Int64) ex_acct ex_holder ex_fraud = Inr False"
proof -
  have ia: "identifiers ex_acct = [Num 1, Num 2, Num 3]"
    and ih: "identifiers ex_holder = [Num 1, Num 1, Num 3]"
    and i_f: "identifiers ex_fraud = [Num 1, Num 2, Num 3]"
    by (simp_all add: identifiers_def series_def ex_acct_def ex_holder_def ex_fraud_def)
  have ca: "''Identifier'' \<in> set (columns ex_acct)"
    and ch: "''Identifier'' \<in> set (columns ex_holder)"
    and cf: "''Identifier'' \<in> set (columns ex_fraud)"
    by (simp_all add: ex_acct_def ex_holder_def ex_fraud_def)
  have "ids_match (Int64, Int64, Int64) ex_acct ex_fraud ex_acct = Inr True"
    using ids_match_iff_equal_sets [OF ca cf ca, of Int64 Int64 Int64] by (simp add: ia i_f)
  moreover have "Num 2 \<in> set (identifiers ex_acct) \<and> Num 2 \<notin> set (identifiers ex_holder)"
    by (simp add: ia ih)
  then have "ids_match (Int64, Int64, Int64) ex_acct ex_holder ex_fraud = Inr False"
    using ids_match_iff_equal_sets [OF ca ch cf, of Int64 Int64 Int64] by blast
  ultimately show ?thesis using ia ih i_f by blast
qed

text \<open>
  The claim as it was stated fails when an identifier is missing in numeric identifier
  columns: the three tables below have the same set of identifiers, and the check
  returns false.
\<close>

theorem ids_match_counterexample:
  "identifiers ex_gap_acct = [Num 1, NaN] \<and>
   identifiers ex_gap_holder = [Num 1, NaN] \<and>
   identifiers ex_gap_fraud = [Num 1, NaN] \<and>
   set (identifiers ex_gap_acct) = set (identifiers ex_gap_holder) \<and>
   set (identifiers ex_gap_holder) = set (identifiers ex_gap_fraud) \<and>
   ids_match (Float64, Float64, Float64) ex_gap_acct ex_gap_holder ex_gap_fraud = Inr False"
  by (simp add: ids_match_def getitem_def py_set_eq_def fresh_nan_def identifiers_def series_def
      ex_gap_acct_def ex_gap_holder_def ex_gap_fraud_def)

section \<open>Columns of a well-formed table\<close>

lemma length_put_cell:
  "length r = length ks \<Longrightarrow> length (put_cell ks r c v) = length (put_col ks c)"
proof (induction ks r rule: list_induct2')
  case (4 k ks x xs)
  then show ?case by (auto simp: put_col_def)
qed (simp_all add: put_col_def)

lemma cell_at_put_cell:
  "length r = length ks \<Longrightarrow>
     cell_at (put_col ks c) (put_cell ks r c v) c' = (if c' = c then v else cell_at ks r c')"
proof (induction ks r rule: list_induct2')
  case (4 k ks x xs)
  then show ?case by (auto simp: put_col_def split: if_splits)
qed (simp_all add: put_col_def)

lemma wf_frame_setitem:
  "wf_frame df \<Longrightarrow> wf_frame (setitem df c vs)"
  by (auto simp: wf_frame_def setitem_def list_all_iff length_put_cell dest!: set_zip_leftD)

lemma rows_setitem:
  "length vs = length (rows df) \<Longrightarrow> length (rows (setitem df c vs)) = length (rows df)"
  by (simp add: setitem_def)

lemma series_setitem:
  assumes "wf_frame df" and "length vs = length (rows df)"
  shows "series (setitem df c vs) c' = (if c' = c then vs else series df c')"
proof -
  have "map (\<lambda>(r, v). cell_at (put_col (columns df) c) (put_cell (columns df) r c v) c') (zip (rows df) vs) =
        map (\<lambda>(r, v). if c' = c then v else cell_at (columns df) r c') (zip (rows df) vs)"
    using assms(1) by (auto simp: wf_frame_def list_all_iff cell_at_put_cell dest!: set_zip_leftD)
  also have "\<dots> = (if c' = c then map snd (zip (rows df) vs) else map (\<lambda>r. cell_at (columns df) r c') (map fst (zip (rows df) vs)))"
    by (auto simp: case_prod_unfold comp_def)
  also have "\<dots> = (if c' = c then vs else map (\<lambda>r. cell_at (columns df) r c') (rows df))"
    using assms(2) by simp
  finally show ?thesis by (simp add: series_def setitem_def comp_def case_prod_unfold)
qed

lemma getitem_Inr: "getitem df c = Inr vs \<Longrightarrow> vs = series df c"
  by (auto simp: getitem_def split: if_splits)

lemma apply_series_Inr:
  "apply_series f vs = Inr ws \<Longrightarrow> length ws = length vs \<and> (\<forall>i < length vs. f (vs ! i) = Inr (ws ! i))"
proof (induction vs arbitrary: ws)
  case Nil
  then show ?case by simp
next
  case (Cons v vs)
  from Cons.prems obtain w ws' where w: "f v = Inr w" and ws': "apply_series f vs = Inr ws'"
    and ws: "ws = w # ws'"
    by (auto split: sum.splits)
  from Cons.IH [OF ws'] w ws show ?case by (auto simp: nth_Cons split: nat.splits)
qed


section \<open>Age from the date of birth\<close>





text \<open>The columns the feature builder adds, and the rows it keeps.\<close>

lemma derived_columns:
  assumes "wf_frame df" and "create_derived_features current_date df = Inr df'"
  shows "\<exists>ages cats.
           apply_series (age_of current_date) (map to_datetime (series df ''DateOfBirth'')) = Inr ages \<and>
           apply_series (cut age_ranges age_categories) ages = Inr cats \<and>
           series df' ''Age'' = ages \<and> series df' ''AgeCategory'' = cats \<and>
           length (rows df') = length (rows df)"
proof -
  let ?dob = "series df ''DateOfBirth''"
  let ?df1 = "setitem df ''DateOfBirth'' (map to_datetime ?dob)"
  have len_dob: "length (map to_datetime ?dob) = length (rows df)" by (simp add: series_def)
  have wf1: "wf_frame ?df1" using assms(1) by (rule wf_frame_setitem)
  have rows1: "length (rows ?df1) = length (rows df)" using len_dob by (rule rows_setitem)
  have birth: "series ?df1 ''DateOfBirth'' = map to_datetime ?dob"
    using series_setitem [OF assms(1) len_dob] by simp
  from assms(2) obtain ages cats icats where
    ages: "apply_series (age_of current_date) (map to_datetime ?dob) = Inr ages"
    and cats0: "apply_series (cut age_ranges age_categories) (series (setitem ?df1 ''Age'' ages) ''Age'') = Inr cats"
    and df': "df' = setitem (setitem (setitem ?df1 ''Age'' ages) ''AgeCategory'' cats) ''IncomeCategory'' icats"
    and icats: "apply_series (cut income_ranges income_categories)
        (series (setitem (setitem ?df1 ''Age'' ages) ''AgeCategory'' cats) ''Income'') = Inr icats"
    by (auto simp: create_derived_features_def Let_def birth split: sum.splits dest!: getitem_Inr)
  let ?df2 = "setitem ?df1 ''Age'' ages"
  let ?df3 = "setitem ?df2 ''AgeCategory'' cats"
  from apply_series_Inr [OF ages] have len_ages: "length ages = length (rows df)"
    by (simp add: series_def)
  have wf2: "wf_frame ?df2" using wf1 by (rule wf_frame_setitem)
  have rows2: "length (rows ?df2) = length (rows df)"
    using rows_setitem [of ages ?df1] len_ages rows1 by simp
  have age2: "series ?df2 ''Age'' = ages"
    using series_setitem [OF wf1, of ages] len_ages rows1 by simp
  from cats0 have cats: "apply_series (cut age_ranges age_categories) ages = Inr cats"
    by (simp add: age2)
  from apply_series_Inr [OF cats] have len_cats: "length cats = length (rows df)"
    by (simp add: len_ages)
  have wf3: "wf_frame ?df3" using wf2 by (rule wf_frame_setitem)
  have rows3: "length (rows ?df3) = length (rows df)"
    using rows_setitem [of cats ?df2] len_cats rows2 by simp
  have col3: "series ?df3 ''Age'' = ages" "series ?df3 ''AgeCategory'' = cats"
    using series_setitem [OF wf2, of cats] len_cats rows2 age2 by simp_all
  from apply_series_Inr [OF icats] have len_icats: "length icats = length (rows df)"
    using rows3 by (simp add: series_def)
  have "length (rows df') = length (rows df)"
    unfolding df' using rows_setitem [of icats ?df3] len_icats rows3 by simp
  moreover have "series df' ''Age'' = ages" "series df' ''AgeCategory'' = cats"
    unfolding df' using series_setitem [OF wf3, of icats] len_icats rows3 col3 by simp_all
  ultimately show ?thesis using ages cats by blast
qed



section \<open>Age buckets\<close>

lemma age_bucket_table:
  "cut age_ranges age_categories (Num x) =
     Inr (if x < 0 then NaN
          else if x < 17 then Str ''0-17''
          else if x < 24 then Str ''18-24''
          else if x < 35 then Str ''25-35''
          else if x < 45 then Str ''36-45''
          else if x < 60 then Str ''46-60''
          else if x < 100 then Str ''60+''
          else NaN)"
  by (simp add: age_ranges_def age_categories_def searchsorted_right_def)

text \<open>
  Claim C1, on the code. With \<open>right=False\<close> the bucket \<open>18-24\<close> is the interval from 17
  (included) to 24 (excluded): age 17 gets the label \<open>18-24\<close>, not \<open>0-17\<close>, and age 16 is
  the last age with the label \<open>0-17\<close>. Age 18 gets \<open>18-24\<close>; ages 100 and -1 get no
  bucket. So on 14 June 2024 the feature builder gives a holder born on 14 June 2007
  the age 17 and the age category \<open>18-24\<close>.
\<close>

theorem age_bucket_at_boundaries:
  "cut age_ranges age_categories (Num 17) = Inr (Str ''18-24'') \<and>
   cut age_ranges age_categories (Num 16) = Inr (Str ''0-17'') \<and>
   cut age_ranges age_categories (Num 18) = Inr (Str ''18-24'') \<and>
   cut age_ranges age_categories (Num 100) = Inr NaN \<and>
   cut age_ranges age_categories (Num (- 1)) = Inr NaN \<and>
   create_derived_features (2024, 6, 14) ex_seventeen =
     Inr \<lparr>columns = [''Identifier'', ''DateOfBirth'', ''Gender'', ''Income'', ''MuleAccount'', ''Age'',
                     ''AgeCategory'', ''IncomeCategory''],
          rows = [[Num 7, Timestamp 2007 6 14, Str ''M'', Num 0, Num 0, Num 17, Str ''18-24'',
                   Str ''0-10k'']]\<rparr>"
proof -
  have "create_derived_features (2024, 6, 14) ex_seventeen =
     Inr \<lparr>columns = [''Identifier'', ''DateOfBirth'', ''Gender'', ''Income'', ''MuleAccount'', ''Age'',
                     ''AgeCategory'', ''IncomeCategory''],
          rows = [[Num 7, Timestamp 2007 6 14, Str ''M'', Num 0, Num 0, Num 17, Str ''18-24'',
                   Str ''0-10k'']]\<rparr>"
    by code_simp
  then show ?thesis by (simp add: age_bucket_table del: cut.simps)
qed

section \<open>Left joins keep the number of account rows\<close>












section \<open>Rows without a partner stay null after the join\<close>

subsection \<open>Cleaning keeps the header, the shape and the identifiers\<close>










subsection \<open>The shape of a joined row\<close>













section \<open>The ranking of the combinations\<close>

lemma stable_desc_spec: "sort_values_spec stable_desc"
proof -
  have "descending (stable_desc gs)" for gs
  proof -
    have "sorted (map (\<lambda>g. - mule_sum g) (sort_key (\<lambda>g. - mule_sum g) gs))"
      by (rule sorted_sort_key)
    then show ?thesis by (simp add: descending_def stable_desc_def sorted_map)
  qed
  then show ?thesis by (simp add: sort_values_spec_def stable_desc_def)
qed


lemma set_insert_cell: "set (insert_cell v ws) = insert v (set ws)"
  by (induction ws) auto

lemma set_sorted_unique: "set (sorted_unique vs) = {v \<in> set vs. \<not> isna v}"
proof -
  have "set (foldr insert_cell xs []) = set xs" for xs
    by (induction xs) (simp_all add: set_insert_cell)
  then show ?thesis by (auto simp: sorted_unique_def)
qed

lemma distinct_insert_cell: "distinct ws \<Longrightarrow> v \<notin> set ws \<Longrightarrow> distinct (insert_cell v ws)"
  by (induction ws) (auto simp: set_insert_cell)

lemma distinct_sorted_unique: "distinct (sorted_unique vs)"
proof -
  have "distinct xs \<Longrightarrow> distinct (foldr insert_cell xs []) \<and> set (foldr insert_cell xs []) = set xs" for xs
    by (induction xs) (auto simp: set_insert_cell distinct_insert_cell)
  then show ?thesis by (simp add: sorted_unique_def)
qed



lemma distinct_age_keys: "distinct (map Str age_categories)"
  by (simp add: age_categories_def)

lemma distinct_pair_keys:
  "distinct keys1 \<Longrightarrow> distinct keys2 \<Longrightarrow> distinct (pair_keys observed df by1 keys1 by2 keys2)"
  by (simp add: pair_keys_def distinct_product)





section \<open>Rows with a null key are left out of the sums\<close>

subsection \<open>Null age categories\<close>

lemma age_category_values:
  assumes "cut age_ranges age_categories v = Inr w"
  shows "(w = NaN \<or> w \<in> Str ` set age_categories) \<and>
         (isna w \<longleftrightarrow> isna v \<or> (\<exists>x. v = Num x \<and> (x < 0 \<or> 100 \<le> x)))"
proof (cases v)
  case (Num x)
  with assms have "w = (if x < 0 then NaN
          else if x < 17 then Str ''0-17''
          else if x < 24 then Str ''18-24''
          else if x < 35 then Str ''25-35''
          else if x < 45 then Str ''36-45''
          else if x < 60 then Str ''46-60''
          else if x < 100 then Str ''60+''
          else NaN)"
    by (simp add: age_bucket_table del: cut.simps)
  with Num show ?thesis by (auto simp: age_categories_def)
qed (use assms in auto)

subsection \<open>Sums over groups\<close>

lemma sum_list_at_key:
  "distinct ks \<Longrightarrow> sum_list (map (\<lambda>k. if x = k then (c :: rat) else 0) ks) = (if x \<in> set ks then c else 0)"
  by (induction ks) auto

lemma group_sums_total:
  fixes f :: "'r \<Rightarrow> rat"
  assumes "distinct ks"
  shows "sum_list (map (\<lambda>k. sum_list (map f (filter (\<lambda>r. key r = k) rs))) ks) =
         sum_list (map f (filter (\<lambda>r. key r \<in> set ks) rs))"
proof (induction rs)
  case Nil
  then show ?case by simp
next
  case (Cons r rs)
  have "sum_list (map (\<lambda>k. sum_list (map f (filter (\<lambda>r. key r = k) (r # rs)))) ks) =
        sum_list (map (\<lambda>k. (if key r = k then f r else 0) +
                            sum_list (map f (filter (\<lambda>r. key r = k) rs))) ks)"
    by (rule arg_cong [where f = sum_list]) simp
  also have "\<dots> = sum_list (map (\<lambda>k. if key r = k then f r else 0) ks) +
                   sum_list (map (\<lambda>k. sum_list (map f (filter (\<lambda>r. key r = k) rs))) ks)"
    by (rule sum_list_addf)
  also have "\<dots> = (if key r \<in> set ks then f r else 0) +
                   sum_list (map f (filter (\<lambda>r. key r \<in> set ks) rs))"
    by (simp add: sum_list_at_key [OF assms] Cons.IH)
  finally show ?case by simp
qed

lemma sum_list_filter_split:
  fixes g :: "'r \<Rightarrow> rat"
  shows "sum_list (map g rs) =
         sum_list (map g (filter p rs)) + sum_list (map g (filter (\<lambda>r. \<not> p r) rs))"
  by (induction rs) auto

lemma sum_where_split:
  "sum_where df (\<lambda>r. True) val = sum_where df p val + sum_where df (\<lambda>r. \<not> p r) val"
proof -
  let ?g = "\<lambda>r. num_of (cell_at (columns df) r val)"
  have "sum_where df (\<lambda>r. True) val = sum_list (map ?g (rows df))"
    by (simp add: sum_where_def nansum_def comp_def)
  also have "\<dots> = sum_list (map ?g (filter p (rows df))) +
                   sum_list (map ?g (filter (\<lambda>r. \<not> p r) (rows df)))"
    by (rule sum_list_filter_split)
  also have "\<dots> = sum_where df p val + sum_where df (\<lambda>r. \<not> p r) val"
    by (simp add: sum_where_def nansum_def comp_def)
  finally show ?thesis .
qed

lemma nansum_series: "nansum (series df val) = sum_where df (\<lambda>r. True) val"
  by (simp add: sum_where_def nansum_def series_def comp_def)

lemma sum_where_cong:
  assumes "\<And>r. r \<in> set (rows df) \<Longrightarrow> p r = q r"
  shows "sum_where df p val = sum_where df q val"
proof -
  have "filter p (rows df) = filter q (rows df)"
    using assms by (auto intro: filter_cong)
  then show ?thesis by (simp add: sum_where_def)
qed

lemma groupby_sum_total:
  assumes "distinct keys"
  shows "sum_list (map snd (groupby_sum df keys by val)) =
         sum_where df (\<lambda>r. cell_at (columns df) r by \<in> set keys) val"
proof -
  have "sum_list (map snd (groupby_sum df keys by val)) =
        sum_list (map (\<lambda>k. sum_list (map (\<lambda>r. num_of (cell_at (columns df) r val))
                       (filter (\<lambda>r. cell_at (columns df) r by = k) (rows df)))) keys)"
    by (simp add: groupby_sum_def sum_where_def nansum_def comp_def)
  also have "\<dots> = sum_list (map (\<lambda>r. num_of (cell_at (columns df) r val))
                       (filter (\<lambda>r. cell_at (columns df) r by \<in> set keys) (rows df)))"
    using assms by (rule group_sums_total)
  finally show ?thesis by (simp add: sum_where_def nansum_def comp_def)
qed

lemma groupby_sum2_total:
  assumes "distinct keys"
  shows "sum_list (map mule_sum (groupby_sum2 df keys by1 by2 val)) =
         sum_where df (\<lambda>r. (cell_at (columns df) r by1, cell_at (columns df) r by2) \<in> set keys) val"
proof -
  have "sum_list (map mule_sum (groupby_sum2 df keys by1 by2 val)) =
        sum_list (map (\<lambda>k. sum_list (map (\<lambda>r. num_of (cell_at (columns df) r val))
                       (filter (\<lambda>r. (cell_at (columns df) r by1, cell_at (columns df) r by2) = k) (rows df)))) keys)"
    by (simp add: groupby_sum2_def sum_where_def nansum_def comp_def mule_sum_def case_prod_unfold prod_eq_iff)
  also have "\<dots> = sum_list (map (\<lambda>r. num_of (cell_at (columns df) r val))
                       (filter (\<lambda>r. (cell_at (columns df) r by1, cell_at (columns df) r by2) \<in> set keys) (rows df)))"
    using assms by (rule group_sums_total)
  finally show ?thesis by (simp add: sum_where_def nansum_def comp_def)
qed

lemma sum_list_sorted_groups:
  assumes "mset gs' = mset gs"
  shows "sum_list (map mule_sum gs') = sum_list (map mule_sum gs)"
proof -
  have "sum_mset (image_mset mule_sum (mset gs')) = sum_mset (image_mset mule_sum (mset gs))"
    using assms by simp
  then show ?thesis by (simp add: sum_mset_sum_list flip: mset_map)
qed
subsection \<open>The three totals of the analysis\<close>

lemma analysis_fields:
  assumes "analyze_fraud_patterns observed srt df = Inr an"
  shows "age_cat_results an =
           groupby_sum df (category_keys observed age_categories (series df ''AgeCategory''))
             ''AgeCategory'' ''MuleAccount''"
    and "gender_breakdown an =
           groupby_sum df (sorted_unique (series df ''Gender'')) ''Gender'' ''MuleAccount''"
    and "fraud_analysis an = srt (grouped_combinations observed df)"
  using assms by (auto simp: analyze_fraud_patterns_def Let_def split: if_splits)

lemma distinct_category_keys: "distinct (category_keys observed age_categories col)"
  by (simp add: category_keys_def distinct_map inj_on_def age_categories_def)

lemma category_keys_member:
  "v \<in> set col \<Longrightarrow> v \<in> set (category_keys observed age_categories col) \<longleftrightarrow> v \<in> Str ` set age_categories"
  by (auto simp: category_keys_def)

lemma pair_keys_member:
  assumes "r \<in> set (rows df)"
  shows "(cell_at (columns df) r by1, cell_at (columns df) r by2) \<in> set (pair_keys observed df by1 keys1 by2 keys2)
           \<longleftrightarrow> cell_at (columns df) r by1 \<in> set keys1 \<and> cell_at (columns df) r by2 \<in> set keys2"
  using assms by (auto simp: pair_keys_def)

lemma cell_in_series: "r \<in> set (rows df) \<Longrightarrow> cell_at (columns df) r c \<in> set (series df c)"
  by (simp add: series_def)

lemma categorical_key:
  assumes "v = NaN \<or> v \<in> Str ` set age_categories"
  shows "v \<in> Str ` set age_categories \<longleftrightarrow> \<not> isna v"
  using assms by auto

text \<open>
  Claim C10. Let the analysis run on the table that the feature builder makes of a
  well-formed merged table. The age category of a row is null exactly when its age is
  null or outside the interval from 0 (included) to 100 (excluded). Each of the three
  totals (per age category, per gender, per combination) is the sum of the indicator
  over the rows whose key, or keys, are not null; the sum over the whole table is that
  total plus the sum over the rows that have a null key. So a flagged row with a null
  key makes the total strictly smaller than the sum over the whole table, as for the
  example table with a flagged account that has no holder row.
\<close>

theorem null_keys_left_out:
  assumes "wf_frame merged"
    and "create_derived_features current_date merged = Inr df"
    and "sort_values_spec srt"
    and "analyze_fraud_patterns observed srt df = Inr an"
  shows "(\<forall>i < length (rows df).
            isna (series df ''AgeCategory'' ! i) \<longleftrightarrow>
              isna (series df ''Age'' ! i) \<or>
              (\<exists>x. series df ''Age'' ! i = Num x \<and> (x < 0 \<or> 100 \<le> x))) \<and>
         sum_list (map snd (age_cat_results an)) =
           sum_where df (\<lambda>r. \<not> isna (cell_at (columns df) r ''AgeCategory'')) ''MuleAccount'' \<and>
         sum_list (map snd (gender_breakdown an)) =
           sum_where df (\<lambda>r. \<not> isna (cell_at (columns df) r ''Gender'')) ''MuleAccount'' \<and>
         sum_list (map mule_sum (fraud_analysis an)) =
           sum_where df (\<lambda>r. \<not> isna (cell_at (columns df) r ''AgeCategory'') \<and>
                              \<not> isna (cell_at (columns df) r ''Gender'')) ''MuleAccount'' \<and>
         nansum (series df ''MuleAccount'') =
           sum_list (map snd (age_cat_results an)) +
           sum_where df (\<lambda>r. isna (cell_at (columns df) r ''AgeCategory'')) ''MuleAccount'' \<and>
         nansum (series df ''MuleAccount'') =
           sum_list (map snd (gender_breakdown an)) +
           sum_where df (\<lambda>r. isna (cell_at (columns df) r ''Gender'')) ''MuleAccount'' \<and>
         nansum (series df ''MuleAccount'') =
           sum_list (map mule_sum (fraud_analysis an)) +
           sum_where df (\<lambda>r. isna (cell_at (columns df) r ''AgeCategory'') \<or>
                              isna (cell_at (columns df) r ''Gender'')) ''MuleAccount'' \<and>
         (\<exists>d a. create_derived_features (2024, 6, 14) ex_null_keys = Inr d \<and>
                 analyze_fraud_patterns observed stable_desc d = Inr a \<and>
                 sum_list (map snd (age_cat_results a)) < nansum (series d ''MuleAccount'') \<and>
                 sum_list (map snd (gender_breakdown a)) < nansum (series d ''MuleAccount'') \<and>
                 sum_list (map mule_sum (fraud_analysis a)) < nansum (series d ''MuleAccount''))"
proof -
  let ?age = "\<lambda>r. cell_at (columns df) r ''AgeCategory''"
  let ?gen = "\<lambda>r. cell_at (columns df) r ''Gender''"
  from derived_columns [OF assms(1,2)] obtain ages cats where
    cats: "apply_series (cut age_ranges age_categories) ages = Inr cats"
    and sa: "series df ''Age'' = ages" and sc: "series df ''AgeCategory'' = cats"
    and len: "length (rows df) = length (rows merged)"
    by auto
  from apply_series_Inr [OF cats] have lc: "length cats = length ages"
    and ci: "\<forall>i < length ages. cut age_ranges age_categories (ages ! i) = Inr (cats ! i)"
    by simp_all
  have la: "length ages = length (rows df)" using sa by (simp add: series_def flip: sa)
  have p1: "\<forall>i < length (rows df).
            isna (series df ''AgeCategory'' ! i) \<longleftrightarrow>
              isna (series df ''Age'' ! i) \<or>
              (\<exists>x. series df ''Age'' ! i = Num x \<and> (x < 0 \<or> 100 \<le> x))"
    using ci la age_category_values by (simp add: sa sc)
  have cat: "?age r = NaN \<or> ?age r \<in> Str ` set age_categories" if "r \<in> set (rows df)" for r
  proof -
    from that have "?age r \<in> set cats" using cell_in_series [of r df "''AgeCategory''"] by (simp add: sc)
    then obtain i where "i < length cats" and "cats ! i = ?age r" by (auto simp: in_set_conv_nth)
    with ci lc age_category_values [of "ages ! i" "cats ! i"] show ?thesis by auto
  qed
  have age_key: "?age r \<in> set (category_keys observed age_categories (series df ''AgeCategory''))
                   \<longleftrightarrow> \<not> isna (?age r)" if "r \<in> set (rows df)" for r
    using category_keys_member [OF cell_in_series [OF that], of "''AgeCategory''" observed]
      categorical_key [OF cat [OF that]] by simp
  have gen_key: "?gen r \<in> set (sorted_unique (series df ''Gender'')) \<longleftrightarrow> \<not> isna (?gen r)"
    if "r \<in> set (rows df)" for r
    using cell_in_series [OF that, of "''Gender''"] by (simp add: set_sorted_unique)
  have pair_key: "(?age r, ?gen r) \<in> set (pair_keys observed df ''AgeCategory'' (map Str age_categories)
                      ''Gender'' (sorted_unique (series df ''Gender'')))
                   \<longleftrightarrow> \<not> isna (?age r) \<and> \<not> isna (?gen r)" if "r \<in> set (rows df)" for r
    using pair_keys_member [OF that, of "''AgeCategory''" "''Gender''" observed]
      categorical_key [OF cat [OF that]] gen_key [OF that] by simp
  note f = analysis_fields [OF assms(4)]
  have t1: "sum_list (map snd (age_cat_results an)) = sum_where df (\<lambda>r. \<not> isna (?age r)) ''MuleAccount''"
    unfolding f(1) groupby_sum_total [OF distinct_category_keys]
    by (rule sum_where_cong) (rule age_key)
  have t2: "sum_list (map snd (gender_breakdown an)) = sum_where df (\<lambda>r. \<not> isna (?gen r)) ''MuleAccount''"
    unfolding f(2) groupby_sum_total [OF distinct_sorted_unique]
    by (rule sum_where_cong) (rule gen_key)
  have "mset (fraud_analysis an) = mset (grouped_combinations observed df)"
    using assms(3) by (simp add: f(3) sort_values_spec_def)
  then have "sum_list (map mule_sum (fraud_analysis an)) =
             sum_list (map mule_sum (grouped_combinations observed df))"
    by (rule sum_list_sorted_groups)
  also have "\<dots> = sum_where df (\<lambda>r. (?age r, ?gen r) \<in> set (pair_keys observed df ''AgeCategory''
                      (map Str age_categories) ''Gender'' (sorted_unique (series df ''Gender'')))) ''MuleAccount''"
    unfolding grouped_combinations_def
    by (rule groupby_sum2_total) (simp add: distinct_pair_keys distinct_age_keys distinct_sorted_unique)
  also have "\<dots> = sum_where df (\<lambda>r. \<not> isna (?age r) \<and> \<not> isna (?gen r)) ''MuleAccount''"
    by (rule sum_where_cong) (rule pair_key)
  finally have t3: "sum_list (map mule_sum (fraud_analysis an)) =
      sum_where df (\<lambda>r. \<not> isna (?age r) \<and> \<not> isna (?gen r)) ''MuleAccount''" .
  have w1: "nansum (series df ''MuleAccount'') =
      sum_list (map snd (age_cat_results an)) + sum_where df (\<lambda>r. isna (?age r)) ''MuleAccount''"
    using sum_where_split [of df "''MuleAccount''" "\<lambda>r. \<not> isna (?age r)"] by (simp add: t1 nansum_series)
  have w2: "nansum (series df ''MuleAccount'') =
      sum_list (map snd (gender_breakdown an)) + sum_where df (\<lambda>r. isna (?gen r)) ''MuleAccount''"
    using sum_where_split [of df "''MuleAccount''" "\<lambda>r. \<not> isna (?gen r)"] by (simp add: t2 nansum_series)
  have w3: "nansum (series df ''MuleAccount'') =
      sum_list (map mule_sum (fraud_analysis an)) +
      sum_where df (\<lambda>r. isna (?age r) \<or> isna (?gen r)) ''MuleAccount''"
    using sum_where_split [of df "''MuleAccount''" "\<lambda>r. \<not> isna (?age r) \<and> \<not> isna (?gen r)"]
    by (simp add: t3 nansum_series)
  have ex: "\<exists>d a. create_derived_features (2024, 6, 14) ex_null_keys = Inr d \<and>
                 analyze_fraud_patterns observed stable_desc d = Inr a \<and>
                 sum_list (map snd (age_cat_results a)) < nansum (series d ''MuleAccount'') \<and>
                 sum_list (map snd (gender_breakdown a)) < nansum (series d ''MuleAccount'') \<and>
                 sum_list (map mule_sum (fraud_analysis a)) < nansum (series d ''MuleAccount'')"
  proof -
    let ?d = "projr (create_derived_features (2024, 6, 14) ex_null_keys)"
    have d: "create_derived_features (2024, 6, 14) ex_null_keys = Inr ?d" by code_simp
    have n: "nansum (series ?d ''MuleAccount'') = 2" by code_simp
    have "\<exists>a. analyze_fraud_patterns b stable_desc ?d = Inr a \<and>
                 sum_list (map snd (age_cat_results a)) = 1 \<and>
                 sum_list (map snd (gender_breakdown a)) = 1 \<and>
                 sum_list (map mule_sum (fraud_analysis a)) = 1" for b
    proof (cases b)
      case True
      let ?a = "projr (analyze_fraud_patterns True stable_desc ?d)"
      have "analyze_fraud_patterns True stable_desc ?d = Inr ?a" by code_simp
      moreover have "sum_list (map snd (age_cat_results ?a)) = 1"
        "sum_list (map snd (gender_breakdown ?a)) = 1"
        "sum_list (map mule_sum (fraud_analysis ?a)) = 1"
        by code_simp+
      moreover from True have "b = True" by simp
      ultimately show ?thesis by (intro exI [of _ ?a]) simp
    next
      case False
      let ?a = "projr (analyze_fraud_patterns False stable_desc ?d)"
      have "analyze_fraud_patterns False stable_desc ?d = Inr ?a" by code_simp
      moreover have "sum_list (map snd (age_cat_results ?a)) = 1"
        "sum_list (map snd (gender_breakdown ?a)) = 1"
        "sum_list (map mule_sum (fraud_analysis ?a)) = 1"
        by code_simp+
      moreover from False have "b = False" by simp
      ultimately show ?thesis by (intro exI [of _ ?a]) simp
    qed
    then obtain a where "analyze_fraud_patterns observed stable_desc ?d = Inr a"
      "sum_list (map snd (age_cat_results a)) = 1" "sum_list (map snd (gender_breakdown a)) = 1"
      "sum_list (map mule_sum (fraud_analysis a)) = 1" by blast
    with d n show ?thesis by (intro exI [of _ ?d] exI [of _ a]) simp
  qed
  from p1 t1 t2 t3 w1 w2 w3 ex show ?thesis by blast
qed
theorem null_keys_left_out_witness:
  "wf_frame ex_null_keys \<and> sort_values_spec stable_desc \<and>
   create_derived_features (2024, 6, 14) ex_null_keys =
     Inr \<lparr>columns = [''Identifier'', ''DateOfBirth'', ''Gender'', ''Income'', ''MuleAccount'', ''Age'',
                     ''AgeCategory'', ''IncomeCategory''],
          rows = [[Num 1, Timestamp 1990 6 15, Str ''F'', Num 25000, Num 1, Num 33, Str ''25-35'',
                   Str ''20k-30k''],
                  [Num 2, NaT, NaN, NaN, Num 1, NaN, NaN, NaN]]\<rparr> \<and>
   (\<exists>an. analyze_fraud_patterns False stable_desc
            (projr (create_derived_features (2024, 6, 14) ex_null_keys)) = Inr an \<and>
         age_cat_results an =
           [(Str ''0-17'', 0), (Str ''18-24'', 0), (Str ''25-35'', 1), (Str ''36-45'', 0),
            (Str ''46-60'', 0), (Str ''60+'', 0)] \<and>
         gender_breakdown an = [(Str ''F'', 1)] \<and>
         sum_list (map snd (age_cat_results an)) = 1 \<and>
         sum_list (map snd (gender_breakdown an)) = 1 \<and>
         sum_list (map mule_sum (fraud_analysis an)) = 1) \<and>
   nansum (series (projr (create_derived_features (2024, 6, 14) ex_null_keys)) ''MuleAccount'') = 2"
proof -
  let ?d = "projr (create_derived_features (2024, 6, 14) ex_null_keys)"
  let ?an = "projr (analyze_fraud_patterns False stable_desc ?d)"
  have wf: "wf_frame ex_null_keys" by (simp add: wf_frame_def ex_null_keys_def)
  have c: "create_derived_features (2024, 6, 14) ex_null_keys = Inr ?d" by code_simp
  have lit: "create_derived_features (2024, 6, 14) ex_null_keys =
     Inr \<lparr>columns = [''Identifier'', ''DateOfBirth'', ''Gender'', ''Income'', ''MuleAccount'', ''Age'',
                     ''AgeCategory'', ''IncomeCategory''],
          rows = [[Num 1, Timestamp 1990 6 15, Str ''F'', Num 25000, Num 1, Num 33, Str ''25-35'',
                   Str ''20k-30k''],
                  [Num 2, NaT, NaN, NaN, Num 1, NaN, NaN, NaN]]\<rparr>"
    by code_simp
  have a: "analyze_fraud_patterns False stable_desc ?d = Inr ?an" by code_simp
  have n: "nansum (series ?d ''MuleAccount'') = 2" by code_simp
  have e1: "sum_where ?d (\<lambda>r. isna (cell_at (columns ?d) r ''AgeCategory'')) ''MuleAccount'' = 1"
    and e2: "sum_where ?d (\<lambda>r. isna (cell_at (columns ?d) r ''Gender'')) ''MuleAccount'' = 1"
    and e3: "sum_where ?d (\<lambda>r. isna (cell_at (columns ?d) r ''AgeCategory'') \<or>
                               isna (cell_at (columns ?d) r ''Gender'')) ''MuleAccount'' = 1"
    by code_simp+
  note totals = null_keys_left_out [OF wf c stable_desc_spec a]
  from totals n e1 have s1: "sum_list (map snd (age_cat_results ?an)) = 1" by simp
  from totals n e2 have s2: "sum_list (map snd (gender_breakdown ?an)) = 1" by simp
  from totals n e3 have s3: "sum_list (map mule_sum (fraud_analysis ?an)) = 1" by simp
  have r1: "age_cat_results ?an =
           [(Str ''0-17'', 0), (Str ''18-24'', 0), (Str ''25-35'', 1), (Str ''36-45'', 0),
            (Str ''46-60'', 0), (Str ''60+'', 0)]"
    and r2: "gender_breakdown ?an = [(Str ''F'', 1)]"
    by code_simp+
  from a s1 s2 s3 r1 r2 have "\<exists>an. analyze_fraud_patterns False stable_desc ?d = Inr an \<and>
         age_cat_results an =
           [(Str ''0-17'', 0), (Str ''18-24'', 0), (Str ''25-35'', 1), (Str ''36-45'', 0),
            (Str ''46-60'', 0), (Str ''60+'', 0)] \<and>
         gender_breakdown an = [(Str ''F'', 1)] \<and>
         sum_list (map snd (age_cat_results an)) = 1 \<and>
         sum_list (map snd (gender_breakdown an)) = 1 \<and>
         sum_list (map mule_sum (fraud_analysis an)) = 1"
    by (intro exI [of _ ?an]) simp
  with wf stable_desc_spec lit n show ?thesis by blast
qed

end
